theory Spec2Isabelle
  imports Main "HOL-Library.AList" "HOL-Library.Sublist"
begin

section \<open>Data model of ufo.py\<close>

text \<open>
  The program keeps one dictionary \<^verbatim>\<open>data\<close> from column name to a list of cells. A cell is
  a Python \<^verbatim>\<open>str\<close> (everything the loader stores, and the years the date step stores) or
  the dictionary \<^verbatim>\<open>{'city': ..., 'state': ...}\<close> the location step stores. Dictionaries keep
  insertion order, so the table is an association list; a Record Table has exactly the six
  keys of \<^verbatim>\<open>column_names\<close>, in that order. Strings are lists of 8-bit characters: the input
  is read as ASCII text. Row indices come from \<^verbatim>\<open>range\<close> and \<^verbatim>\<open>enumerate\<close>, so they are
  natural numbers.
\<close>

datatype error = IndexError | KeyError | TypeError | AttributeError | ValueError

datatype cell = Str string | CityState (city: string) (state: string)

type_synonym table = "(string \<times> cell list) list"

definition OCCURRED :: string where
  "OCCURRED = ''date_occurred''"

definition REPORTED :: string where
  "REPORTED = ''date_reported''"

definition LOCATION :: string where
  "LOCATION = ''location''"

definition SHORT_DESCRIPTION :: string where
  "SHORT_DESCRIPTION = ''short_description''"

definition DURATION :: string where
  "DURATION = ''duration''"

definition LONG_DESCRIPTION :: string where
  "LONG_DESCRIPTION = ''long_description''"

definition column_names :: "string list" where
  "column_names = [''date_occurred'', ''date_reported'', ''location'',
                   ''short_description'', ''duration'', ''long_description'']"

text \<open>A Record Table: the six columns, in the order the loader creates them.\<close>

definition record_table :: "(string \<times> 'a list) list \<Rightarrow> bool" where
  "record_table data = (map fst data = column_names)"

text \<open>All column sequences have the same length.\<close>

definition aligned :: "(string \<times> 'a list) list \<Rightarrow> bool" where
  "aligned data = (case data of [] \<Rightarrow> True
                   | (key, rows) # rest \<Rightarrow> list_all (\<lambda>(k, r). length r = length rows) rest)"

section \<open>Row filter\<close>

text \<open>
  \<^verbatim>\<open>[item for index, item in enumerate(rows) if index not in indices]\<close>
\<close>

definition trim_rows :: "'a list \<Rightarrow> nat list \<Rightarrow> 'a list" where
  "trim_rows rows indices =
     map snd (filter (\<lambda>(index, item). index \<notin> set indices) (enumerate 0 rows))"

text \<open>
  \<^verbatim>\<open>for key in data.keys(): data[key] = ...\<close>: every entry keeps its key and its place, and
  gets the filtered list.
\<close>

definition trim_indices :: "(string \<times> 'a list) list \<Rightarrow> nat list \<Rightarrow> (string \<times> 'a list) list" where
  "trim_indices data indices = map (\<lambda>(key, rows). (key, trim_rows rows indices)) data"

section \<open>Python string operations\<close>

text \<open>\<^verbatim>\<open>str.isspace\<close> on one ASCII character: tab, line feed, vertical tab, form feed,
  carriage return, the four separators 0x1C to 0x1F, and the space.\<close>

definition isspace :: "char \<Rightarrow> bool" where
  "isspace c = (c \<in> set [CHR 0x09, CHR 0x0A, CHR 0x0B, CHR 0x0C, CHR 0x0D,
                           CHR 0x1C, CHR 0x1D, CHR 0x1E, CHR 0x1F, CHR 0x20])"

text \<open>\<^verbatim>\<open>s.strip()\<close>\<close>

definition strip :: "string \<Rightarrow> string" where
  "strip s = rev (dropWhile isspace (rev (dropWhile isspace s)))"

text \<open>\<^verbatim>\<open>s.upper()\<close> on ASCII text: the letters a to z go to A to Z, every other character
  stays.\<close>

definition upper_char :: "char \<Rightarrow> char" where
  "upper_char c =
     (case map_of (zip ''abcdefghijklmnopqrstuvwxyz'' ''ABCDEFGHIJKLMNOPQRSTUVWXYZ'') c of
        Some u \<Rightarrow> u
      | None \<Rightarrow> c)"

definition upper :: "string \<Rightarrow> string" where
  "upper s = map upper_char s"

text \<open>\<^verbatim>\<open>s.split(sep)\<close> for a one-character separator: one more part than separators, empty
  parts kept. A character that is no separator goes in front of the first part of the rest
  (there always is one).\<close>

fun split_on :: "char \<Rightarrow> string \<Rightarrow> string list" where
  "split_on sep [] = [[]]"
| "split_on sep (c # s) =
     (if c = sep then [] # split_on sep s
      else (case split_on sep s of
              [] \<Rightarrow> [[c]]
            | part # parts \<Rightarrow> (c # part) # parts))"

text \<open>\<^verbatim>\<open>sep.join(parts)\<close>\<close>

fun join :: "string \<Rightarrow> string list \<Rightarrow> string" where
  "join sep [] = []"
| "join sep [p] = p"
| "join sep (p # q # ps) = p @ sep @ join sep (q # ps)"

text \<open>\<^verbatim>\<open>str(n)\<close> for a non-negative integer.\<close>

fun str_nat :: "nat \<Rightarrow> string" where
  "str_nat n =
     (if n < 10 then [''0123456789'' ! n]
      else str_nat (n div 10) @ [''0123456789'' ! (n mod 10)])"

section \<open>The standard library's date parser\<close>

text \<open>
  \<^verbatim>\<open>datetime.strptime(row, '%Y%m%d')\<close> as CPython's \<^verbatim>\<open>_strptime\<close> runs it. The format
  becomes the regular expression
  \<^verbatim>\<open>(?P<Y>\d\d\d\d)(?P<m>1[0-2]|0[1-9]|[1-9])(?P<d>3[0-1]|[1-2]\d|0[1-9]|[1-9]| [1-9])\<close>,
  matched at the start of the string; the first match in the engine's backtracking order
  is taken, and it must consume the whole string. Then the three numbers must form a date
  of the proleptic Gregorian calendar with year 1 to 9999. A group is a list of
  alternatives in priority order, an alternative a list of character classes, a class the
  string of the characters it accepts.
\<close>

definition digits :: string where
  "digits = ''0123456789''"

definition nonzero :: string where
  "nonzero = ''123456789''"

definition regex_Y :: "string list list" where
  "regex_Y = [[digits, digits, digits, digits]]"

definition regex_m :: "string list list" where
  "regex_m = [[''1'', ''012''], [''0'', nonzero], [nonzero]]"

definition regex_d :: "string list list" where
  "regex_d = [[''3'', ''01''], [''12'', digits], [''0'', nonzero], [nonzero], ['' '', nonzero]]"

text \<open>One alternative against the start of a string: the matched text and the rest.\<close>

fun match_seq :: "string list \<Rightarrow> string \<Rightarrow> (string \<times> string) option" where
  "match_seq [] s = Some ([], s)"
| "match_seq (cls # rest) [] = None"
| "match_seq (cls # rest) (c # s) =
     (if c \<in> set cls
      then (case match_seq rest s of None \<Rightarrow> None | Some (m, r) \<Rightarrow> Some (c # m, r))
      else None)"

text \<open>Every way a group matches the start of a string, in priority order.\<close>

definition match_group :: "string list list \<Rightarrow> string \<Rightarrow> (string \<times> string) list" where
  "match_group alts s = List.map_filter (\<lambda>alt. match_seq alt s) alts"

text \<open>\<^verbatim>\<open>format_regex.match(data_string)\<close>: the groups Y, m and d of the first match, and the
  text after it.\<close>

definition format_match :: "string \<Rightarrow> (string \<times> string \<times> string \<times> string) option" where
  "format_match s =
     (case concat (map (\<lambda>(y, r1).
             concat (map (\<lambda>(m, r2).
               map (\<lambda>(d, r3). (y, m, d, r3)) (match_group regex_d r2))
             (match_group regex_m r1)))
           (match_group regex_Y s)) of
        [] \<Rightarrow> None
      | found # others \<Rightarrow> Some found)"

text \<open>\<^verbatim>\<open>int(text)\<close> on a matched group: decimal digits, after surrounding blanks.\<close>

definition digit_value :: "char \<Rightarrow> nat" where
  "digit_value c = (case map_of (zip ''0123456789'' [0, 1, 2, 3, 4, 5, 6, 7, 8, 9]) c of Some v \<Rightarrow> v | None \<Rightarrow> 0)"

definition int_of :: "string \<Rightarrow> nat" where
  "int_of s = foldl (\<lambda>acc c. 10 * acc + digit_value c) 0 (strip s)"

definition is_leap :: "nat \<Rightarrow> bool" where
  "is_leap year = (year mod 4 = 0 \<and> (year mod 100 \<noteq> 0 \<or> year mod 400 = 0))"

definition days_in_month :: "nat \<Rightarrow> nat \<Rightarrow> nat" where
  "days_in_month year month =
     (if month = 2 then (if is_leap year then 29 else 28)
      else if month \<in> set [4, 6, 9, 11] then 30 else 31)"

definition strptime :: "cell \<Rightarrow> error + (nat \<times> nat \<times> nat)" where
  "strptime row =
     (case row of
        CityState c s \<Rightarrow> Inl TypeError
      | Str data_string \<Rightarrow>
          (case format_match data_string of
             None \<Rightarrow> Inl ValueError
           | Some (y, m, d, rest) \<Rightarrow>
               if rest \<noteq> [] then Inl ValueError
               else
                 let year = int_of y; month = int_of m; day = int_of d
                 in if 1 \<le> year \<and> year \<le> 9999 \<and> 1 \<le> month \<and> month \<le> 12
                       \<and> 1 \<le> day \<and> day \<le> days_in_month year month
                    then Inr (year, month, day)
                    else Inl ValueError))"

section \<open>Date validator\<close>

text \<open>\<^verbatim>\<open>row[:4]\<close>\<close>

definition year_of :: "cell \<Rightarrow> error + cell" where
  "year_of row = (case row of Str s \<Rightarrow> Inr (Str (take 4 s)) | CityState c s \<Rightarrow> Inl TypeError)"

text \<open>The body of the \<^verbatim>\<open>try\<close> block of \<^verbatim>\<open>column_to_date\<close>: parse, then take the year.\<close>

definition try_date :: "cell \<Rightarrow> error + cell" where
  "try_date row = (case strptime row of Inl e \<Rightarrow> Inl e | Inr parsed \<Rightarrow> year_of row)"

text \<open>
  The loop \<^verbatim>\<open>for i in range(len(col))\<close> at index \<open>i\<close>, with the rows from \<open>i\<close> on and the
  two lists built so far. The bare \<^verbatim>\<open>except\<close> catches every error of the body and appends
  the index; nothing is appended to \<^verbatim>\<open>transformed\<close> there.
\<close>

fun column_to_date_loop :: "nat \<Rightarrow> cell list \<Rightarrow> cell list \<times> nat list \<Rightarrow> cell list \<times> nat list" where
  "column_to_date_loop i [] (transformed, bad_indices) = (transformed, bad_indices)"
| "column_to_date_loop i (row # rest) (transformed, bad_indices) =
     (case try_date row of
        Inr year \<Rightarrow> column_to_date_loop (Suc i) rest (transformed @ [year], bad_indices)
      | Inl e \<Rightarrow> column_to_date_loop (Suc i) rest (transformed, bad_indices @ [i]))"

definition column_to_date :: "cell list \<Rightarrow> cell list \<times> nat list" where
  "column_to_date col = column_to_date_loop 0 col ([], [])"

text \<open>\<^verbatim>\<open>data[key]\<close>\<close>

definition lookup :: "(string \<times> 'a) list \<Rightarrow> string \<Rightarrow> error + 'a" where
  "lookup data key = (case map_of data key of None \<Rightarrow> Inl KeyError | Some v \<Rightarrow> Inr v)"

definition transform_dates :: "table \<Rightarrow> error + (table \<times> nat list)" where
  "transform_dates data =
     (case lookup data OCCURRED of
        Inl e \<Rightarrow> Inl e
      | Inr occurred \<Rightarrow>
          (case lookup data REPORTED of
             Inl e \<Rightarrow> Inl e
           | Inr reported \<Rightarrow>
               let (occurred_transformed, occurred_bad_indices) = column_to_date occurred;
                   (reported_transformed, reported_bad_indices) = column_to_date reported;
                   bad_indices = [] @ occurred_bad_indices @ reported_bad_indices;
                   data1 = AList.update OCCURRED occurred_transformed data;
                   data2 = AList.update REPORTED reported_transformed data1
               in Inr (data2, bad_indices)))"

text \<open>A parse that succeeds, as a test.\<close>

definition date_ok :: "cell \<Rightarrow> bool" where
  "date_ok row = (case strptime row of Inr parsed \<Rightarrow> True | Inl e \<Rightarrow> False)"

text \<open>
  What the specification says a date cell leaves in its column: the leading four
  characters when the parse succeeds, nothing otherwise.
\<close>

definition spec_working_value :: "cell \<Rightarrow> cell option" where
  "spec_working_value row =
     (case row of
        Str s \<Rightarrow> if date_ok row then Some (Str (take 4 s)) else None
      | CityState c s \<Rightarrow> None)"

section \<open>Location validator\<close>

definition states :: "string list" where
  "states = [''AK'', ''AL'', ''AR'', ''AZ'', ''CA'', ''CO'', ''CT'', ''DE'', ''FL'', ''GA'', ''HI'', ''IA'', ''ID'',
             ''IL'', ''IN'', ''KS'', ''KY'', ''LA'', ''MA'', ''MD'', ''ME'', ''MI'', ''MN'', ''MO'', ''MS'', ''MT'',
             ''NC'', ''ND'', ''NE'', ''NH'', ''NJ'', ''NM'', ''NV'', ''NY'', ''OH'', ''OK'', ''OR'', ''PA'', ''RI'',
             ''SC'', ''SD'', ''TN'', ''TX'', ''UT'', ''VA'', ''VT'', ''WA'', ''WI'', ''WV'', ''WY'']"

text \<open>
  The loop \<^verbatim>\<open>for i in range(len(locations))\<close> at index \<open>i\<close>, with the rows from \<open>i\<close> on
  and the two lists built so far. \<^verbatim>\<open>row.split\<close> exists for a string only; \<^verbatim>\<open>split[0]\<close>
  and \<^verbatim>\<open>split[1]\<close> need that many parts.
\<close>

fun transform_locations_loop ::
  "nat \<Rightarrow> cell list \<Rightarrow> cell list \<times> nat list \<Rightarrow> error + (cell list \<times> nat list)" where
  "transform_locations_loop i [] (transformed_locations, bad_indices) =
     Inr (transformed_locations, bad_indices)"
| "transform_locations_loop i (CityState c s # rest) (transformed_locations, bad_indices) =
     Inl AttributeError"
| "transform_locations_loop i (Str row # rest) (transformed_locations, bad_indices) =
     (let split = split_on CHR '','' row;
          bad_indices1 =
            (if length split \<noteq> 2 then bad_indices @ [i]
             else if strip (upper (split ! 1)) \<notin> set states then bad_indices @ [i]
             else bad_indices)
      in if length split = 1
         then transform_locations_loop (Suc i) rest
                (transformed_locations @ [Str (split ! 0)], bad_indices1)
         else (case split of
                 c # s # more \<Rightarrow>
                   transform_locations_loop (Suc i) rest
                     (transformed_locations @ [CityState c s], bad_indices1)
               | _ \<Rightarrow> Inl IndexError))"

text \<open>\<^verbatim>\<open>data.get(LOCATION)\<close> is \<^verbatim>\<open>None\<close> for a missing key, and \<^verbatim>\<open>len(None)\<close> is a
  TypeError.\<close>

definition transform_locations :: "table \<Rightarrow> error + (table \<times> nat list)" where
  "transform_locations data =
     (case map_of data LOCATION of
        None \<Rightarrow> Inl TypeError
      | Some locations \<Rightarrow>
          (case transform_locations_loop 0 locations ([], []) of
             Inl e \<Rightarrow> Inl e
           | Inr (transformed_locations, bad_indices) \<Rightarrow>
               Inr (AList.update LOCATION transformed_locations data, bad_indices)))"

text \<open>
  The specification's reading of one location string: it is rejected when the comma split
  does not give two parts or the second part, uppercased and trimmed, is no state; its value
  is the string itself for one part, and the pair of the first two raw parts otherwise.
\<close>

definition spec_location_flagged :: "string \<Rightarrow> bool" where
  "spec_location_flagged row =
     (length (split_on CHR '','' row) \<noteq> 2
      \<or> strip (upper (split_on CHR '','' row ! 1)) \<notin> set states)"

definition spec_location_value :: "string \<Rightarrow> cell" where
  "spec_location_value row =
     (if length (split_on CHR '','' row) = 1 then Str row
      else CityState (split_on CHR '','' row ! 0) (split_on CHR '','' row ! 1))"

section \<open>Line parser\<close>

definition tab :: char where
  "tab = CHR 0x09"

text \<open>
  \<^verbatim>\<open>fix_long_description\<close>: the tokens from \<^verbatim>\<open>last_column\<close> on are collected, stripped,
  the empty ones dropped, the rest joined with two spaces; the result replaces the token at
  \<^verbatim>\<open>last_column\<close> (an IndexError when there is none) and the list is cut after it.
\<close>

definition fix_long_description :: "string list \<Rightarrow> error + string list" where
  "fix_long_description split_line =
     (let last_column = length column_names - 1;
          stragglers = drop last_column split_line;
          stragglers1 = map strip (filter (\<lambda>item. strip item \<noteq> []) stragglers);
          stragglers2 = join ''  '' stragglers1
      in if last_column < length split_line
         then Inr (take (last_column + 1) (split_line[last_column := stragglers2]))
         else Inl IndexError)"

text \<open>
  The inner loop \<^verbatim>\<open>for i in range(len(column_names))\<close> over the indices still to do. An
  append changes the table at once, so the table comes back also when a later index
  raises.
\<close>

fun store_fields :: "nat list \<Rightarrow> string list \<Rightarrow> table \<Rightarrow> table \<times> error option" where
  "store_fields [] split_line data = (data, None)"
| "store_fields (i # todo) split_line data =
     (let key = column_names ! i
      in if i < length split_line
         then (case map_of data key of
                 None \<Rightarrow> (data, Some KeyError)
               | Some rows \<Rightarrow>
                   store_fields todo split_line
                     (AList.update key (rows @ [Str (split_line ! i)]) data))
         else (data, Some IndexError))"

text \<open>One pass of the outer loop body, up to \<^verbatim>\<open>line_num += 1\<close>.\<close>

definition load_line :: "string \<Rightarrow> table \<Rightarrow> table \<times> error option" where
  "load_line line data =
     (let split_line = split_on tab line
      in if length split_line > length column_names
         then (case fix_long_description split_line of
                 Inl e \<Rightarrow> (data, Some e)
               | Inr fixed \<Rightarrow> store_fields [0 ..< length column_names] fixed data)
         else store_fields [0 ..< length column_names] split_line data)"

text \<open>The outer loop inside \<^verbatim>\<open>try\<close>: it stops at the first error, with the table as it is
  then and with \<^verbatim>\<open>line_num\<close> counting the lines done.\<close>

fun load_lines :: "string list \<Rightarrow> table \<Rightarrow> nat \<Rightarrow> table \<times> nat \<times> error option" where
  "load_lines [] data line_num = (data, line_num, None)"
| "load_lines (line # lines) data line_num =
     (case load_line line data of
        (data1, Some e) \<Rightarrow> (data1, line_num, Some e)
      | (data1, None) \<Rightarrow> load_lines lines data1 (line_num + 1))"

text \<open>What \<^verbatim>\<open>log.error\<close> is given: a text, the class of an exception, the exception, or
  \<^verbatim>\<open>None\<close>.\<close>

datatype logged = Text string | TypeOf error | Exception error | NoneValue

definition err_printer :: "error \<Rightarrow> logged list" where
  "err_printer e = [TypeOf e, Exception e, NoneValue]"

text \<open>\<^verbatim>\<open>load_data\<close>, given the lines \<^verbatim>\<open>f.readlines()\<close> returned: the table, and what was
  logged as errors.\<close>

definition load_data :: "string list \<Rightarrow> table \<times> logged list" where
  "load_data lines =
     (case load_lines lines (map (\<lambda>name. (name, [])) column_names) 0 of
        (data, line_num, None) \<Rightarrow> (data, [])
      | (data, line_num, Some e) \<Rightarrow>
          (data, Text (''Found error on line number '' @ str_nat line_num) # err_printer e))"

section \<open>The pipeline\<close>

text \<open>The steps of \<^verbatim>\<open>main\<close> on the loaded table, up to the table the plots are given; the
  informational log lines are left out.\<close>

definition clean :: "table \<Rightarrow> error + table" where
  "clean data =
     (case transform_dates data of
        Inl e \<Rightarrow> Inl e
      | Inr (data1, bad_date_indices) \<Rightarrow>
          (case transform_locations (trim_indices data1 bad_date_indices) of
             Inl e \<Rightarrow> Inl e
           | Inr (data2, bad_location_indices) \<Rightarrow>
               Inr (trim_indices data2 bad_location_indices)))"

definition main :: "string list \<Rightarrow> error + table" where
  "main lines = clean (fst (load_data lines))"

section \<open>Facts about the row filter\<close>

lemma trim_rows_enumerate:
  "map snd (filter (\<lambda>(index, item). index \<notin> S) (enumerate n xs)) = nths xs {i. i + n \<notin> S}"
proof (induction xs arbitrary: n)
  case Nil
  show ?case by simp
next
  case (Cons x xs)
  show ?case by (simp add: nths_Cons Cons.IH)
qed

lemma trim_rows_nths: "trim_rows rows I = nths rows {i. i \<notin> set I}"
  by (simp add: trim_rows_def trim_rows_enumerate)

lemma trim_rows_Nil [simp]: "trim_rows [] I = []"
  by (simp add: trim_rows_def)

lemma trim_rows_empty [simp]: "trim_rows rows [] = rows"
  by (simp add: trim_rows_nths nths_all)

lemma subseq_trim_rows: "subseq (trim_rows rows I) rows"
  unfolding trim_rows_nths subseq_conv_nths by blast

lemma length_trim_rows:
  "length (trim_rows rows I) = length rows - card {i \<in> set I. i < length rows}"
proof -
  let ?n = "length rows"
  let ?keep = "{i. i < ?n \<and> i \<notin> set I}"
  let ?drop = "{i \<in> set I. i < ?n}"
  have fin: "finite ?keep" "finite ?drop" by simp_all
  have disj: "?keep \<inter> ?drop = {}" by auto
  have un: "?keep \<union> ?drop = {..<?n}" by auto
  have "card ?keep + card ?drop = card (?keep \<union> ?drop)"
    using card_Un_disjoint [OF fin disj] by simp
  then have "card ?keep + card ?drop = ?n" by (simp add: un)
  moreover have "length (trim_rows rows I) = card ?keep"
    by (simp add: trim_rows_nths length_nths)
  ultimately show ?thesis by simp
qed

lemma trim_rows_set_cong: "set I = set J \<Longrightarrow> trim_rows xs I = trim_rows xs J"
  by (simp add: trim_rows_nths)

lemma trim_indices_set_cong: "set I = set J \<Longrightarrow> trim_indices data I = trim_indices data J"
  by (simp add: trim_indices_def trim_rows_set_cong [of I J])

lemma map_of_trim_indices:
  "map_of (trim_indices data I) key = map_option (\<lambda>rows. trim_rows rows I) (map_of data key)"
  by (induction data) (auto simp: trim_indices_def)

lemma keys_trim_indices: "map fst (trim_indices data I) = map fst data"
  by (induction data) (auto simp: trim_indices_def)

section \<open>Claims about the row filter\<close>

text \<open>
  C2: for every table and every list of row indices, sorted or not and with or without
  repetitions, the filter keeps every key, and every column loses exactly its positions
  that occur in the list: its new length is the old one minus the number of distinct
  in-range indices, what remains is the subsequence at the positions that are not listed
  (so in the original relative order), and listing an index more than once changes nothing.
\<close>

theorem trim_indices_filters_by_index_set:
  "map fst (trim_indices data I) = map fst data
   \<and> map_of (trim_indices data I) key = map_option (\<lambda>rows. trim_rows rows I) (map_of data key)
   \<and> length (trim_rows rows I) = length rows - card {i \<in> set I. i < length rows}
   \<and> trim_rows rows I = nths rows {i. i \<notin> set I}
   \<and> subseq (trim_rows rows I) rows
   \<and> trim_rows rows (remdups I) = trim_rows rows I
   \<and> trim_indices data (remdups I) = trim_indices data I
   \<and> trim_indices data (I @ I) = trim_indices data I"
proof -
  have tables: "trim_indices data (remdups I) = trim_indices data I"
    "trim_indices data (I @ I) = trim_indices data I"
    by (rule trim_indices_set_cong, simp)+
  have "trim_rows rows (remdups I) = trim_rows rows I"
    by (rule trim_rows_set_cong) simp
  with tables show ?thesis
    using keys_trim_indices [of data I] map_of_trim_indices [of data I key]
      length_trim_rows [of rows I] trim_rows_nths [of rows I] subseq_trim_rows [of rows I]
    by blast
qed

text \<open>
  C10: filtering with the empty index list returns every column unchanged.
\<close>

theorem trim_indices_no_indices: "trim_indices data [] = data"
  by (induction data) (auto simp: trim_indices_def)

section \<open>Facts about the date validator\<close>

lemma column_to_date_loop_append:
  "column_to_date_loop i (xs @ ys) acc =
   column_to_date_loop (i + length xs) ys (column_to_date_loop i xs acc)"
proof (induction xs arbitrary: i acc)
  case Nil
  show ?case by (cases acc) simp
next
  case (Cons x xs)
  obtain t b where acc: "acc = (t, b)" by (cases acc)
  show ?case by (simp add: acc Cons.IH split: sum.splits)
qed

lemma column_to_date_snoc:
  "column_to_date (xs @ [x]) =
     (case try_date x of
        Inr year \<Rightarrow> (fst (column_to_date xs) @ [year], snd (column_to_date xs))
      | Inl e \<Rightarrow> (fst (column_to_date xs), snd (column_to_date xs) @ [length xs]))"
proof -
  obtain t b where acc: "column_to_date_loop 0 xs ([], []) = (t, b)"
    by (cases "column_to_date_loop 0 xs ([], [])")
  show ?thesis
    by (simp add: column_to_date_def column_to_date_loop_append acc split: sum.splits)
qed

lemma filter_upt_snoc:
  "filter (\<lambda>i. P ((xs @ [x]) ! i)) [0 ..< Suc (length xs)] =
   filter (\<lambda>i. P (xs ! i)) [0 ..< length xs] @ (if P x then [length xs] else [])"
proof -
  have "filter (\<lambda>i. P ((xs @ [x]) ! i)) [0 ..< length xs] = filter (\<lambda>i. P (xs ! i)) [0 ..< length xs]"
    by (rule filter_cong) (simp_all add: nth_append)
  then show ?thesis by simp
qed

lemma map_filter_append:
  "List.map_filter f (xs @ ys) = List.map_filter f xs @ List.map_filter f ys"
  by (simp add: map_filter_def)

lemma date_ok_try_date:
  "date_ok row \<Longrightarrow> \<exists>s. row = Str s \<and> try_date row = Inr (Str (take 4 s))"
  by (cases row) (auto simp: date_ok_def try_date_def year_of_def strptime_def split: sum.splits)

lemma not_date_ok_try_date: "\<not> date_ok row \<Longrightarrow> \<exists>e. try_date row = Inl e"
  by (auto simp: date_ok_def try_date_def split: sum.splits)

lemma spec_working_value_ok:
  "date_ok (Str s) \<Longrightarrow> spec_working_value (Str s) = Some (Str (take 4 s))"
  by (simp add: spec_working_value_def)

lemma spec_working_value_bad: "\<not> date_ok row \<Longrightarrow> spec_working_value row = None"
  by (cases row) (simp_all add: spec_working_value_def)

lemma snd_column_to_date:
  "snd (column_to_date col) = filter (\<lambda>i. \<not> date_ok (col ! i)) [0 ..< length col]"
proof (induction col rule: rev_induct)
  case Nil
  show ?case by (simp add: column_to_date_def)
next
  case (snoc x xs)
  show ?case
  proof (cases "date_ok x")
    case True
    then obtain s where "try_date x = Inr (Str (take 4 s))" using date_ok_try_date by blast
    then show ?thesis using True snoc.IH
      by (simp add: column_to_date_snoc filter_upt_snoc [where P = "\<lambda>r. \<not> date_ok r"] del: upt_Suc)
  next
    case False
    then obtain e where "try_date x = Inl e" using not_date_ok_try_date by blast
    then show ?thesis using False snoc.IH
      by (simp add: column_to_date_snoc filter_upt_snoc [where P = "\<lambda>r. \<not> date_ok r"] del: upt_Suc)
  qed
qed

lemma fst_column_to_date:
  "fst (column_to_date col) = List.map_filter spec_working_value col"
proof (induction col rule: rev_induct)
  case Nil
  show ?case by (simp add: column_to_date_def List.map_filter_simps)
next
  case (snoc x xs)
  show ?case
  proof (cases "date_ok x")
    case True
    then obtain s where "x = Str s" "try_date x = Inr (Str (take 4 s))" using date_ok_try_date by blast
    then show ?thesis using True snoc.IH
      by (simp add: column_to_date_snoc map_filter_append List.map_filter_simps spec_working_value_ok)
  next
    case False
    then obtain e where "try_date x = Inl e" using not_date_ok_try_date by blast
    then show ?thesis using False snoc.IH
      by (simp add: column_to_date_snoc map_filter_append List.map_filter_simps spec_working_value_bad)
  qed
qed

lemma column_to_date_short:
  "c \<in> set (fst (column_to_date col)) \<Longrightarrow> \<exists>s. c = Str s \<and> length s \<le> 4"
  by (auto simp: fst_column_to_date map_filter_def spec_working_value_def split: cell.splits if_splits)

lemma set_trim_rows: "set (trim_rows rows I) \<subseteq> set rows"
  by (simp add: trim_rows_nths set_nths_subset)

section \<open>Claims about the date validator\<close>

text \<open>
  C3: the date validator parses every cell against the year-month-day format; a cell that
  parses leaves exactly its leading four characters in the column, a cell that does not is
  listed by its row index and leaves nothing. So \<^verbatim>\<open>19870604\<close> gives the working value
  \<^verbatim>\<open>1987\<close>, and \<^verbatim>\<open>1987-06-04\<close> is flagged and is in no date column, before or after any
  filter pass.
\<close>

theorem column_to_date_keeps_year_flags_failure:
  "fst (column_to_date col) = List.map_filter spec_working_value col
   \<and> snd (column_to_date col) = filter (\<lambda>i. \<not> date_ok (col ! i)) [0 ..< length col]
   \<and> column_to_date [Str ''19870604''] = ([Str ''1987''], [])
   \<and> column_to_date [Str ''1987-06-04''] = ([], [0])
   \<and> Str ''1987-06-04'' \<notin> set (trim_rows (fst (column_to_date col)) I)"
proof -
  have ex1: "column_to_date [Str ''19870604''] = ([Str ''1987''], [])"
    by code_simp
  have ex2: "column_to_date [Str ''1987-06-04''] = ([], [0])"
    by code_simp
  have "Str ''1987-06-04'' \<notin> set (fst (column_to_date col))"
    using column_to_date_short [of "Str ''1987-06-04''" col] by auto
  then have "Str ''1987-06-04'' \<notin> set (trim_rows (fst (column_to_date col)) I)"
    using set_trim_rows [of "fst (column_to_date col)" I] by blast
  with ex1 ex2 show ?thesis
    using fst_column_to_date [of col] snd_column_to_date [of col] by blast
qed

text \<open>
  C1: the date transformation does not keep the columns aligned. On a one-row table whose
  occurrence date does not parse, \<^verbatim>\<open>transform_dates\<close> flags row 0 and returns an empty
  occurrence column beside five columns of one row: the flagged row is dropped from the
  date column, which is shorter than the input column. On a table of two rows, the first
  with a bad occurrence date, the whole pipeline then removes position 0 of the already
  shortened column and ends with no occurrence date for the one row it keeps. The filter
  pass and the location transformation do keep an aligned table aligned (last section).
\<close>

theorem transform_dates_drops_flagged_row:
  "transform_dates
     [(''date_occurred'', [Str ''1987-06-04'']), (''date_reported'', [Str ''19870605'']),
      (''location'', [Str ''Ithaca, NY'']), (''short_description'', [Str ''light'']),
      (''duration'', [Str ''1 min'']), (''long_description'', [Str ''a light''])]
   = Inr ([(''date_occurred'', []), (''date_reported'', [Str ''1987'']),
           (''location'', [Str ''Ithaca, NY'']), (''short_description'', [Str ''light'']),
           (''duration'', [Str ''1 min'']), (''long_description'', [Str ''a light''])], [0])
   \<and> aligned
        [(''date_occurred'', [Str ''1987-06-04'']), (''date_reported'', [Str ''19870605'']),
         (''location'', [Str ''Ithaca, NY'']), (''short_description'', [Str ''light'']),
         (''duration'', [Str ''1 min'']), (''long_description'', [Str ''a light''])]
   \<and> \<not> aligned
        [(''date_occurred'', []), (''date_reported'', [Str ''1987'']),
         (''location'', [Str ''Ithaca, NY'']), (''short_description'', [Str ''light'']),
         (''duration'', [Str ''1 min'']), (''long_description'', [Str ''a light''])]
   \<and> clean
        [(''date_occurred'', [Str ''1987-06-04'', Str ''19990101'']),
         (''date_reported'', [Str ''19870605'', Str ''19990102'']),
         (''location'', [Str ''Ithaca, NY'', Str ''Albany, NY'']),
         (''short_description'', [Str ''light'', Str ''disk'']),
         (''duration'', [Str ''1 min'', Str ''2 min'']),
         (''long_description'', [Str ''a light'', Str ''a disk''])]
      = Inr [(''date_occurred'', []), (''date_reported'', [Str ''1999'']),
             (''location'', [CityState ''Albany'' '' NY'']),
             (''short_description'', [Str ''disk'']), (''duration'', [Str ''2 min'']),
             (''long_description'', [Str ''a disk''])]"
  by code_simp

section \<open>Facts about splitting\<close>

lemma split_on_not_Nil [simp]: "split_on sep s \<noteq> []"
  by (induction s) (auto split: list.splits)

lemma length_split_on: "length (split_on sep s) = Suc (length (filter (\<lambda>c. c = sep) s))"
  by (induction s) (auto split: list.splits)

lemma split_on_no_sep: "sep \<notin> set s \<Longrightarrow> split_on sep s = [s]"
  by (induction s) auto

lemma split_on_single: "length (split_on sep s) = 1 \<Longrightarrow> split_on sep s = [s]"
proof -
  assume "length (split_on sep s) = 1"
  then have "filter (\<lambda>c. c = sep) s = []" by (simp add: length_split_on)
  then have "sep \<notin> set s" by (auto simp: filter_empty_conv)
  then show ?thesis by (rule split_on_no_sep)
qed

lemma split_on_two_or_more:
  "length (split_on sep s) \<noteq> 1 \<Longrightarrow>
   \<exists>more. split_on sep s = (split_on sep s ! 0) # (split_on sep s ! 1) # more"
proof -
  assume a: "length (split_on sep s) \<noteq> 1"
  obtain p ps where p: "split_on sep s = p # ps"
    using split_on_not_Nil [of sep s] by (cases "split_on sep s") auto
  with a obtain q qs where "ps = q # qs" by (cases ps) auto
  with p show ?thesis by simp
qed

section \<open>Facts about the location validator\<close>

lemma transform_locations_step:
  "transform_locations_loop i (Str row # rest) (t, b) =
   transform_locations_loop (Suc i) rest
     (t @ [spec_location_value row], if spec_location_flagged row then b @ [i] else b)"
proof (cases "length (split_on CHR '','' row) = 1")
  case True
  then have "split_on CHR '','' row = [row]" by (rule split_on_single)
  then show ?thesis
    by (simp add: spec_location_value_def spec_location_flagged_def)
next
  case False
  then obtain more where
    "split_on CHR '','' row = (split_on CHR '','' row ! 0) # (split_on CHR '','' row ! 1) # more"
    using split_on_two_or_more by blast
  then obtain c s where sp: "split_on CHR '','' row = c # s # more"
    and cs: "split_on CHR '','' row ! 0 = c" "split_on CHR '','' row ! 1 = s" by simp
  show ?thesis
    using False cs by (simp add: sp spec_location_value_def spec_location_flagged_def Let_def)
qed

lemma transform_locations_loop_strings:
  "transform_locations_loop i (map Str rows) (t, b) =
   Inr (t @ map spec_location_value rows,
        b @ map (\<lambda>j. i + j) (filter (\<lambda>j. spec_location_flagged (rows ! j)) [0 ..< length rows]))"
proof (induction rows arbitrary: i t b)
  case Nil
  show ?case by simp
next
  case (Cons row rows)
  have upt: "[0 ..< length (row # rows)] = 0 # map Suc [0 ..< length rows]"
    by (simp add: upt_conv_Cons map_Suc_upt del: upt_Suc)
  show ?case
    unfolding list.map transform_locations_step Cons.IH upt
    by (simp add: filter_map comp_def)
qed

lemma transform_locations_column:
  "transform_locations_loop 0 (map Str rows) ([], []) =
   Inr (map spec_location_value rows,
        filter (\<lambda>i. spec_location_flagged (rows ! i)) [0 ..< length rows])"
  using transform_locations_loop_strings [of 0 rows "[]" "[]"] by simp

lemma transform_locations_strings:
  "map_of data LOCATION = Some (map Str rows) \<Longrightarrow>
   transform_locations data =
     Inr (AList.update LOCATION (map spec_location_value rows) data,
          filter (\<lambda>i. spec_location_flagged (rows ! i)) [0 ..< length rows])"
  by (simp add: transform_locations_def transform_locations_column)

section \<open>Claims about the location validator\<close>

text \<open>
  C4: for every column of location strings, the validator lists exactly the row indices
  whose string does not split on the comma into two parts or whose second part, uppercased
  and trimmed, is not one of the fifty state abbreviations; the value it stores is the
  original string when there is one part and the pair of the raw, untrimmed parts when
  there are two. So \<^verbatim>\<open>Ithaca, NY\<close> becomes city \<^verbatim>\<open>Ithaca\<close>, state \<^verbatim>\<open> NY\<close> and is not
  flagged, while \<^verbatim>\<open>Ithaca, Ontario\<close> and \<^verbatim>\<open>Ithaca\<close> are flagged.
\<close>

theorem transform_locations_flags_and_values:
  "transform_locations_loop 0 (map Str rows) ([], []) =
     Inr (map spec_location_value rows,
          filter (\<lambda>i. spec_location_flagged (rows ! i)) [0 ..< length rows])
   \<and> (map_of data LOCATION = Some (map Str rows) \<longrightarrow>
        transform_locations data =
          Inr (AList.update LOCATION (map spec_location_value rows) data,
               filter (\<lambda>i. spec_location_flagged (rows ! i)) [0 ..< length rows]))
   \<and> length states = 50 \<and> distinct states
   \<and> transform_locations [(''location'', [Str ''Ithaca, NY'', Str ''Ithaca, Ontario'', Str ''Ithaca''])]
       = Inr ([(''location'', [CityState ''Ithaca'' '' NY'', CityState ''Ithaca'' '' Ontario'',
                               Str ''Ithaca''])], [1, 2])"
proof -
  have st: "length states = 50" "distinct states"
    by (simp_all add: states_def)
  have ex: "transform_locations [(''location'', [Str ''Ithaca, NY'', Str ''Ithaca, Ontario'', Str ''Ithaca''])]
       = Inr ([(''location'', [CityState ''Ithaca'' '' NY'', CityState ''Ithaca'' '' Ontario'',
                               Str ''Ithaca''])], [1, 2])"
    by code_simp
  show ?thesis
    using st ex transform_locations_column [of rows] transform_locations_strings [of data rows]
    by blast
qed

theorem transform_locations_flags_and_values_witness:
  "map_of [(''location'', [Str ''Troy,ny'', Str ''Troy'', Str ''Troy, XX''])] LOCATION
     = Some (map Str [''Troy,ny'', ''Troy'', ''Troy, XX''])
   \<and> transform_locations [(''location'', [Str ''Troy,ny'', Str ''Troy'', Str ''Troy, XX''])]
     = Inr ([(''location'', [CityState ''Troy'' ''ny'', Str ''Troy'', CityState ''Troy'' '' XX''])],
            [1, 2])"
proof -
  let ?rows = "[''Troy,ny'', ''Troy'', ''Troy, XX'']"
  let ?data = "[(''location'', map Str ?rows)]"
  have h: "map_of ?data LOCATION = Some (map Str ?rows)"
    by (simp add: LOCATION_def)
  have v: "map spec_location_value ?rows = [CityState ''Troy'' ''ny'', Str ''Troy'', CityState ''Troy'' '' XX'']"
    by code_simp
  have f: "filter (\<lambda>i. spec_location_flagged (?rows ! i)) [0 ..< length ?rows] = [1, 2]"
    by code_simp
  have u: "AList.update LOCATION [CityState ''Troy'' ''ny'', Str ''Troy'', CityState ''Troy'' '' XX''] ?data
           = [(''location'', [CityState ''Troy'' ''ny'', Str ''Troy'', CityState ''Troy'' '' XX''])]"
    by (simp add: LOCATION_def)
  from transform_locations_flags_and_values [of ?rows ?data] h
  have "transform_locations ?data =
          Inr (AList.update LOCATION (map spec_location_value ?rows) ?data,
               filter (\<lambda>i. spec_location_flagged (?rows ! i)) [0 ..< length ?rows])"
    by blast
  then have "transform_locations ?data =
          Inr ([(''location'', [CityState ''Troy'' ''ny'', Str ''Troy'', CityState ''Troy'' '' XX''])], [1, 2])"
    unfolding v f u .
  with h show ?thesis by simp
qed

text \<open>
  C9: a location string with three or more comma-separated parts is flagged, and the value
  stored for it is still the pair of its first two parts; the parts after the second are
  dropped.
\<close>

theorem transform_locations_many_parts:
  "3 \<le> length (split_on CHR '','' row) \<Longrightarrow>
   transform_locations_loop i (Str row # rest) (transformed_locations, bad_indices) =
     transform_locations_loop (Suc i) rest
       (transformed_locations @ [CityState (split_on CHR '','' row ! 0) (split_on CHR '','' row ! 1)],
        bad_indices @ [i])
   \<and> transform_locations [(LOCATION, [Str row])] =
       Inr ([(LOCATION, [CityState (split_on CHR '','' row ! 0) (split_on CHR '','' row ! 1)])], [0])"
proof -
  assume a: "3 \<le> length (split_on CHR '','' row)"
  then have v: "spec_location_value row = CityState (split_on CHR '','' row ! 0) (split_on CHR '','' row ! 1)"
    and f: "spec_location_flagged row"
    by (simp_all add: spec_location_value_def spec_location_flagged_def)
  show ?thesis
    by (simp add: transform_locations_step v f transform_locations_def
        del: transform_locations_loop.simps(3))
qed

theorem transform_locations_many_parts_witness:
  "3 \<le> length (split_on CHR '','' ''Paris,TX,USA'')
   \<and> transform_locations [(LOCATION, [Str ''Paris,TX,USA''])] =
       Inr ([(LOCATION, [CityState ''Paris'' ''TX''])], [0])"
proof -
  have s: "split_on CHR '','' ''Paris,TX,USA'' = [''Paris'', ''TX'', ''USA'']"
    by code_simp
  have h: "3 \<le> length (split_on CHR '','' ''Paris,TX,USA'')"
    by (simp add: s)
  from transform_locations_many_parts [OF h, of 0 "[]" "[]" "[]"] show ?thesis
    using h by (simp add: s)
qed

section \<open>Facts about the line parser\<close>

lemma column_indices: "[0 ..< length column_names] = [0, 1, 2, 3, 4, 5]"
  by code_simp

lemma record_table_entries:
  "record_table data \<Longrightarrow>
   \<exists>r0 r1 r2 r3 r4 r5.
     data = [(''date_occurred'', r0), (''date_reported'', r1), (''location'', r2),
             (''short_description'', r3), (''duration'', r4), (''long_description'', r5)]"
  by (auto simp: record_table_def column_names_def map_eq_Cons_conv)

lemma store_fields_enough:
  assumes "record_table data" and "6 \<le> length fields"
  shows "store_fields [0 ..< length column_names] fields data =
           (map (\<lambda>((key, rows), val). (key, rows @ [Str val])) (zip data fields), None)"
proof -
  obtain r0 r1 r2 r3 r4 r5 where
    d: "data = [(''date_occurred'', r0), (''date_reported'', r1), (''location'', r2),
                (''short_description'', r3), (''duration'', r4), (''long_description'', r5)]"
    using record_table_entries [OF assms(1)] by blast
  obtain f0 f1 f2 f3 f4 f5 more where f: "fields = f0 # f1 # f2 # f3 # f4 # f5 # more"
    using assms(2) by (auto simp: numeral_eq_Suc Suc_le_length_iff)
  show ?thesis
    unfolding column_indices d f by (simp add: column_names_def)
qed

lemma record_table_append_row:
  "record_table data \<Longrightarrow> 6 \<le> length fields \<Longrightarrow>
   record_table (map (\<lambda>((key, rows), val). (key, rows @ [Str val])) (zip data fields))"
proof -
  assume rt: "record_table data" and len: "6 \<le> length fields"
  obtain r0 r1 r2 r3 r4 r5 where
    d: "data = [(''date_occurred'', r0), (''date_reported'', r1), (''location'', r2),
                (''short_description'', r3), (''duration'', r4), (''long_description'', r5)]"
    using record_table_entries [OF rt] by blast
  obtain f0 f1 f2 f3 f4 f5 more where f: "fields = f0 # f1 # f2 # f3 # f4 # f5 # more"
    using len by (auto simp: numeral_eq_Suc Suc_le_length_iff)
  show ?thesis
    unfolding d f by (simp add: record_table_def column_names_def)
qed

lemma store_fields_too_few:
  assumes "record_table data" and "length fields < 6"
  shows "snd (store_fields [0 ..< length column_names] fields data) = Some IndexError"
proof -
  obtain r0 r1 r2 r3 r4 r5 where
    d: "data = [(''date_occurred'', r0), (''date_reported'', r1), (''location'', r2),
                (''short_description'', r3), (''duration'', r4), (''long_description'', r5)]"
    using record_table_entries [OF assms(1)] by blast
  consider "length fields = 0" | "length fields = 1" | "length fields = 2"
    | "length fields = 3" | "length fields = 4" | "length fields = 5"
    using assms(2) by linarith
  then show ?thesis
  proof cases
    case 1
    then show ?thesis unfolding column_indices d by simp
  next
    case 2
    then obtain f0 where "fields = [f0]"
      by (auto simp: numeral_eq_Suc length_Suc_conv)
    then show ?thesis unfolding column_indices d by (simp add: column_names_def)
  next
    case 3
    then obtain f0 f1 where "fields = [f0, f1]"
      by (auto simp: numeral_eq_Suc length_Suc_conv)
    then show ?thesis unfolding column_indices d by (simp add: column_names_def)
  next
    case 4
    then obtain f0 f1 f2 where "fields = [f0, f1, f2]"
      by (auto simp: numeral_eq_Suc length_Suc_conv)
    then show ?thesis unfolding column_indices d by (simp add: column_names_def)
  next
    case 5
    then obtain f0 f1 f2 f3 where "fields = [f0, f1, f2, f3]"
      by (auto simp: numeral_eq_Suc length_Suc_conv)
    then show ?thesis unfolding column_indices d by (simp add: column_names_def)
  next
    case 6
    then obtain f0 f1 f2 f3 f4 where "fields = [f0, f1, f2, f3, f4]"
      by (auto simp: numeral_eq_Suc length_Suc_conv)
    then show ?thesis unfolding column_indices d by (simp add: column_names_def)
  qed
qed

lemma fix_long_description_long:
  "6 \<le> length split_line \<Longrightarrow>
   fix_long_description split_line =
     Inr (take 5 split_line
          @ [join ''  '' (filter (\<lambda>item. item \<noteq> []) (map strip (drop 5 split_line)))])"
proof -
  assume len: "6 \<le> length split_line"
  have c: "length column_names = 6" by (simp add: column_names_def)
  have fm: "map strip (filter (\<lambda>item. strip item \<noteq> []) xs) = filter (\<lambda>item. item \<noteq> []) (map strip xs)"
    for xs by (simp add: filter_map comp_def)
  have "take 6 (split_line[5 := v]) = take 5 split_line @ [v]" for v
    using len by (simp add: take_Suc_conv_app_nth [of 5, simplified] numeral_eq_Suc upd_conv_take_nth_drop)
  then show ?thesis
    using len by (simp add: fix_long_description_def c fm Let_def)
qed

lemma load_line_unfold:
  "load_line line data =
     store_fields [0 ..< length column_names]
       (if 6 < length (split_on tab line)
        then take 5 (split_on tab line)
          @ [join ''  '' (filter (\<lambda>item. item \<noteq> []) (map strip (drop 5 (split_on tab line))))]
        else split_on tab line) data"
proof -
  define todo where "todo = [0 ..< length column_names]"
  have c: "length column_names = 6" by (simp add: column_names_def)
  show ?thesis
    unfolding load_line_def todo_def [symmetric]
    by (simp add: c fix_long_description_long Let_def)
qed

lemma load_line_enough:
  assumes "record_table data" and "6 \<le> length (split_on tab line)"
  shows "\<exists>data1. load_line line data = (data1, None) \<and> record_table data1"
proof (cases "6 < length (split_on tab line)")
  case True
  let ?fixed = "take 5 (split_on tab line)
          @ [join ''  '' (filter (\<lambda>item. item \<noteq> []) (map strip (drop 5 (split_on tab line))))]"
  have len: "6 \<le> length ?fixed" using True by simp
  have "load_line line data = store_fields [0 ..< length column_names] ?fixed data"
    unfolding load_line_unfold using True by simp
  then show ?thesis
    using store_fields_enough [OF assms(1) len] record_table_append_row [OF assms(1) len] by simp
next
  case False
  then have "load_line line data = store_fields [0 ..< length column_names] (split_on tab line) data"
    unfolding load_line_unfold by simp
  then show ?thesis
    using store_fields_enough [OF assms] record_table_append_row [OF assms] by simp
qed

lemma load_line_too_few:
  assumes "record_table data" and "length (split_on tab line) < 6"
  shows "snd (load_line line data) = Some IndexError"
proof -
  have "load_line line data = store_fields [0 ..< length column_names] (split_on tab line) data"
    unfolding load_line_unfold using assms(2) by simp
  then show ?thesis using store_fields_too_few [OF assms] by simp
qed

lemma load_lines_append:
  "load_lines (xs @ ys) data n =
     (case load_lines xs data n of
        (data1, m, None) \<Rightarrow> load_lines ys data1 m
      | (data1, m, Some e) \<Rightarrow> (data1, m, Some e))"
  by (induction xs arbitrary: data n) (auto split: prod.splits option.splits)

lemma load_lines_all_enough:
  "record_table data \<Longrightarrow> \<forall>line \<in> set xs. 6 \<le> length (split_on tab line) \<Longrightarrow>
   \<exists>data1. load_lines xs data n = (data1, n + length xs, None) \<and> record_table data1"
proof (induction xs arbitrary: data n)
  case Nil
  then show ?case by simp
next
  case (Cons x xs)
  then obtain d where d: "load_line x data = (d, None)" "record_table d"
    using load_line_enough [of data x] by auto
  from Cons.IH [OF d(2), of "Suc n"] Cons.prems(2) d(1) show ?case by auto
qed

lemma record_table_initial: "record_table (map (\<lambda>name. (name, [])) column_names)"
  by (simp add: record_table_def comp_def)

lemma load_data_all_enough:
  "\<forall>line \<in> set xs. 6 \<le> length (split_on tab line) \<Longrightarrow>
   snd (load_data xs) = [] \<and> record_table (fst (load_data xs))
   \<and> load_lines xs (map (\<lambda>name. (name, [])) column_names) 0 = (fst (load_data xs), length xs, None)"
proof -
  assume "\<forall>line \<in> set xs. 6 \<le> length (split_on tab line)"
  then obtain d where "load_lines xs (map (\<lambda>name. (name, [])) column_names) 0 = (d, 0 + length xs, None)"
    "record_table d"
    using load_lines_all_enough [OF record_table_initial] by blast
  then show ?thesis by (simp add: load_data_def)
qed

section \<open>Claims about the line parser\<close>

text \<open>
  C5: for every line whose split on the tab gives more than six tokens, the tokens from
  the sixth on are trimmed, the empty ones dropped and the rest joined with two spaces
  into the one final field, and the line then adds exactly one value to each of the six
  columns. The tokens \<^verbatim>\<open>lights in the sky\<close>, \<^verbatim>\<open>very bright\<close>, \<^verbatim>\<open>moving slowly\<close> become
  \<^verbatim>\<open>lights in the sky  very bright  moving slowly\<close>.
\<close>

theorem load_line_merges_extra_tokens:
  assumes "6 < length (split_on tab line)" and "record_table data"
  shows "fix_long_description (split_on tab line) =
           Inr (take 5 (split_on tab line)
                @ [join ''  '' (filter (\<lambda>item. item \<noteq> [])
                     (map strip (drop 5 (split_on tab line))))])
         \<and> load_line line data =
             (map (\<lambda>((key, rows), val). (key, rows @ [Str val]))
                (zip data
                   (take 5 (split_on tab line)
                    @ [join ''  '' (filter (\<lambda>item. item \<noteq> [])
                         (map strip (drop 5 (split_on tab line))))])),
              None)
         \<and> map fst (fst (load_line line data)) = column_names
         \<and> fix_long_description
             [''1'', ''2'', ''3'', ''4'', ''5'', ''lights in the sky'', ''very bright'', ''moving slowly'']
             = Inr [''1'', ''2'', ''3'', ''4'', ''5'', ''lights in the sky  very bright  moving slowly'']"
proof -
  let ?fixed = "take 5 (split_on tab line)
          @ [join ''  '' (filter (\<lambda>item. item \<noteq> []) (map strip (drop 5 (split_on tab line))))]"
  have len: "6 \<le> length ?fixed" using assms(1) by simp
  have fld: "fix_long_description (split_on tab line) = Inr ?fixed"
    using assms(1) by (simp add: fix_long_description_long)
  have "load_line line data = store_fields [0 ..< length column_names] ?fixed data"
    unfolding load_line_unfold using assms(1) by simp
  then have load: "load_line line data =
      (map (\<lambda>((key, rows), val). (key, rows @ [Str val])) (zip data ?fixed), None)"
    using store_fields_enough [OF assms(2) len] by simp
  have keys: "map fst (fst (load_line line data)) = column_names"
    using record_table_append_row [OF assms(2) len] by (simp add: load record_table_def)
  have ex: "fix_long_description
             [''1'', ''2'', ''3'', ''4'', ''5'', ''lights in the sky'', ''very bright'', ''moving slowly'']
             = Inr [''1'', ''2'', ''3'', ''4'', ''5'', ''lights in the sky  very bright  moving slowly'']"
    by code_simp
  from fld load keys ex show ?thesis by blast
qed

theorem load_line_merges_extra_tokens_witness:
  "6 < length (split_on tab (join [tab]
         [''19870604'', ''19870605'', ''Ithaca, NY'', ''light'', ''1 min'',
          ''lights in the sky'', ''very bright'', [], ''moving slowly'' @ [CHR 0x0A]]))
   \<and> record_table (map (\<lambda>name. (name, [])) column_names :: table)
   \<and> load_line (join [tab]
         [''19870604'', ''19870605'', ''Ithaca, NY'', ''light'', ''1 min'',
          ''lights in the sky'', ''very bright'', [], ''moving slowly'' @ [CHR 0x0A]])
        (map (\<lambda>name. (name, [])) column_names)
      = ([(''date_occurred'', [Str ''19870604'']), (''date_reported'', [Str ''19870605'']),
          (''location'', [Str ''Ithaca, NY'']), (''short_description'', [Str ''light'']),
          (''duration'', [Str ''1 min'']),
          (''long_description'', [Str ''lights in the sky  very bright  moving slowly''])], None)"
proof -
  let ?line = "join [tab]
         [''19870604'', ''19870605'', ''Ithaca, NY'', ''light'', ''1 min'',
          ''lights in the sky'', ''very bright'', [], ''moving slowly'' @ [CHR 0x0A]]"
  let ?init = "map (\<lambda>name. (name, [])) column_names :: table"
  have sp: "split_on tab ?line =
         [''19870604'', ''19870605'', ''Ithaca, NY'', ''light'', ''1 min'',
          ''lights in the sky'', ''very bright'', [], ''moving slowly'' @ [CHR 0x0A]]"
    by code_simp
  have h1: "6 < length (split_on tab ?line)" unfolding sp by simp
  have h2: "record_table ?init" by (rule record_table_initial)
  have st: "strip ''lights in the sky'' = ''lights in the sky''"
    "strip ''very bright'' = ''very bright''"
    "strip [] = []"
    "strip ''moving slowly\<newline>'' = ''moving slowly''"
    by code_simp+
  have m: "load_line ?line ?init =
             (map (\<lambda>((key, rows), val). (key, rows @ [Str val]))
                (zip ?init
                   (take 5 (split_on tab ?line)
                    @ [join ''  '' (filter (\<lambda>item. item \<noteq> [])
                         (map strip (drop 5 (split_on tab ?line))))])),
              None)"
    using load_line_merges_extra_tokens [OF h1 h2] by (rule conjunct1 [OF conjunct2])
  have "load_line ?line ?init
      = ([(''date_occurred'', [Str ''19870604'']), (''date_reported'', [Str ''19870605'']),
          (''location'', [Str ''Ithaca, NY'']), (''short_description'', [Str ''light'']),
          (''duration'', [Str ''1 min'']),
          (''long_description'', [Str ''lights in the sky  very bright  moving slowly''])], None)"
    unfolding m sp by (simp add: st column_names_def)
  then show ?thesis by (rule conjI [OF h1 conjI [OF h2]])
qed

text \<open>
  C6: after a structural parse error the loader returns a table with columns of different
  lengths. A file of one good line and one line of three fields gives three columns of two
  rows and three columns of one row: the three fields of the short line were appended
  before the fourth was missed, and they stay.
\<close>

theorem load_data_keeps_partial_row:
  "load_data
     [join [tab] [''19870604'', ''19870605'', ''Ithaca, NY'', ''light'', ''1 min'', ''a light''],
      join [tab] [''19870704'', ''19870705'', ''Albany, NY'']]
   = ([(''date_occurred'', [Str ''19870604'', Str ''19870704'']),
       (''date_reported'', [Str ''19870605'', Str ''19870705'']),
       (''location'', [Str ''Ithaca, NY'', Str ''Albany, NY'']),
       (''short_description'', [Str ''light'']),
       (''duration'', [Str ''1 min'']),
       (''long_description'', [Str ''a light''])],
      [Text ''Found error on line number 1'', TypeOf IndexError, Exception IndexError, NoneValue])
   \<and> \<not> aligned
       [(''date_occurred'', [Str ''19870604'', Str ''19870704'']),
        (''date_reported'', [Str ''19870605'', Str ''19870705'']),
        (''location'', [Str ''Ithaca, NY'', Str ''Albany, NY'']),
        (''short_description'', [Str ''light'']),
        (''duration'', [Str ''1 min'']),
        (''long_description'', [Str ''a light''])]"
  by code_simp

text \<open>
  C7, as the code has it: when line \<open>k\<close> (counted from 0) is the first with fewer than six
  fields, the loader returns, without raising, the table built up to the failure (the rows
  of the \<open>k\<close> lines before it and the fields of the failing line that were stored before
  the missing one), and it logs once: the text with the number \<open>k\<close> of lines done, which is
  the 0-based index of the failing line and one less than its 1-based number, then the
  class of the exception, the exception, and \<^verbatim>\<open>None\<close>.
\<close>

theorem load_data_logs_lines_done:
  assumes "k < length lines"
    and "\<forall>line \<in> set (take k lines). 6 \<le> length (split_on tab line)"
    and "length (split_on tab (lines ! k)) < 6"
  shows "load_data lines =
           (fst (load_line (lines ! k) (fst (load_data (take k lines)))),
            [Text (''Found error on line number '' @ str_nat k),
             TypeOf IndexError, Exception IndexError, NoneValue])
         \<and> snd (load_data (take k lines)) = []"
proof -
  let ?init = "map (\<lambda>name. (name, [])) column_names"
  let ?d = "fst (load_data (take k lines))"
  from load_data_all_enough [OF assms(2)]
  have pre: "snd (load_data (take k lines)) = []" "record_table ?d"
    "load_lines (take k lines) ?init 0 = (?d, length (take k lines), None)" by simp_all
  have lk: "length (take k lines) = k" using assms(1) by simp
  have bad: "snd (load_line (lines ! k) ?d) = Some IndexError"
    using load_line_too_few [OF pre(2) assms(3)] .
  have split: "lines = take k lines @ (lines ! k) # drop (Suc k) lines"
    using assms(1) by (simp add: id_take_nth_drop)
  have "load_lines lines ?init 0 = load_lines ((lines ! k) # drop (Suc k) lines) ?d k"
    using load_lines_append [of "take k lines" "(lines ! k) # drop (Suc k) lines" ?init 0] split pre(3) lk
    by simp
  also have "\<dots> = (fst (load_line (lines ! k) ?d), k, Some IndexError)"
    using bad by (cases "load_line (lines ! k) ?d") simp
  finally have "load_lines lines ?init 0 = (fst (load_line (lines ! k) ?d), k, Some IndexError)" .
  then have "load_data lines =
           (fst (load_line (lines ! k) ?d),
            [Text (''Found error on line number '' @ str_nat k),
             TypeOf IndexError, Exception IndexError, NoneValue])"
    by (subst load_data_def) (simp add: err_printer_def)
  with pre(1) show ?thesis by simp
qed

theorem load_data_logs_lines_done_witness:
  "6 \<le> length (split_on tab (join [tab] [''19870604'', ''19870605'', ''Ithaca, NY'', ''light'', ''1 min'', ''a light'']))
   \<and> length (split_on tab (join [tab] [''19870704'', ''19870705''])) < 6
   \<and> load_data
       [join [tab] [''19870604'', ''19870605'', ''Ithaca, NY'', ''light'', ''1 min'', ''a light''],
        join [tab] [''19870704'', ''19870705'']]
     = ([(''date_occurred'', [Str ''19870604'', Str ''19870704'']),
         (''date_reported'', [Str ''19870605'', Str ''19870705'']),
         (''location'', [Str ''Ithaca, NY'']),
         (''short_description'', [Str ''light'']),
         (''duration'', [Str ''1 min'']),
         (''long_description'', [Str ''a light''])],
        [Text ''Found error on line number 1'', TypeOf IndexError, Exception IndexError, NoneValue])"
proof -
  let ?good = "join [tab] [''19870604'', ''19870605'', ''Ithaca, NY'', ''light'', ''1 min'', ''a light'']"
  let ?bad = "join [tab] [''19870704'', ''19870705'']"
  have g: "6 \<le> length (split_on tab ?good)" by code_simp
  have b: "length (split_on tab ?bad) < 6" by code_simp
  have h1: "1 < length [?good, ?bad]" by simp
  have h2: "\<forall>line \<in> set (take 1 [?good, ?bad]). 6 \<le> length (split_on tab line)"
    using g by simp
  have h3: "length (split_on tab ([?good, ?bad] ! 1)) < 6"
    using b by simp
  have t: "fst (load_line ([?good, ?bad] ! 1) (fst (load_data (take 1 [?good, ?bad]))))
     = [(''date_occurred'', [Str ''19870604'', Str ''19870704'']),
         (''date_reported'', [Str ''19870605'', Str ''19870705'']),
         (''location'', [Str ''Ithaca, NY'']),
         (''short_description'', [Str ''light'']),
         (''duration'', [Str ''1 min'']),
         (''long_description'', [Str ''a light''])]"
    by code_simp
  have n: "str_nat 1 = ''1''" by code_simp
  from load_data_logs_lines_done [OF h1 h2 h3]
  have "load_data [?good, ?bad] =
           (fst (load_line ([?good, ?bad] ! 1) (fst (load_data (take 1 [?good, ?bad])))),
            [Text (''Found error on line number '' @ str_nat 1),
             TypeOf IndexError, Exception IndexError, NoneValue])"
    by blast
  then show ?thesis
    unfolding t n using g b by simp
qed

text \<open>
  The logged number is not the 1-based line number: in a file of ten lines whose fifth
  line has too few fields, the log names line number 4, and no entry names line 5.
\<close>

theorem load_data_line_number_counterexample:
  "snd (load_data
     [join [tab] [''19870601'', ''19870605'', ''Ithaca, NY'', ''light'', ''1 min'', ''a light''],
      join [tab] [''19870602'', ''19870605'', ''Ithaca, NY'', ''light'', ''1 min'', ''a light''],
      join [tab] [''19870603'', ''19870605'', ''Ithaca, NY'', ''light'', ''1 min'', ''a light''],
      join [tab] [''19870604'', ''19870605'', ''Ithaca, NY'', ''light'', ''1 min'', ''a light''],
      join [tab] [''19870605'', ''19870605'', ''Ithaca, NY''],
      join [tab] [''19870606'', ''19870605'', ''Ithaca, NY'', ''light'', ''1 min'', ''a light''],
      join [tab] [''19870607'', ''19870605'', ''Ithaca, NY'', ''light'', ''1 min'', ''a light''],
      join [tab] [''19870608'', ''19870605'', ''Ithaca, NY'', ''light'', ''1 min'', ''a light''],
      join [tab] [''19870609'', ''19870605'', ''Ithaca, NY'', ''light'', ''1 min'', ''a light''],
      join [tab] [''19870610'', ''19870605'', ''Ithaca, NY'', ''light'', ''1 min'', ''a light'']])
   = [Text ''Found error on line number 4'', TypeOf IndexError, Exception IndexError, NoneValue]
   \<and> Text (''Found error on line number '' @ str_nat 5)
       \<noteq> Text ''Found error on line number 4''"
  by code_simp

section \<open>Facts about two filter passes\<close>

lemma nths_UNIV [simp]: "nths xs UNIV = xs"
  by (simp add: nths_all)

lemma nths_remove_twice:
  "nths (nths xs {i. i \<notin> A})
        {j. \<not> (j < length (nths rows {i. i \<notin> A}) \<and> P (nths rows {i. i \<notin> A} ! j))}
   = nths xs {i. i \<notin> A \<and> \<not> (i < length rows \<and> P (rows ! i))}"
proof (induction xs arbitrary: rows A)
  case Nil
  show ?case by simp
next
  case (Cons x xs)
  let ?A = "{j. Suc j \<in> A}"
  show ?case
  proof (cases rows)
    case Nil
    then show ?thesis by simp
  next
    case rows: (Cons r rs)
    have ih: "nths (nths xs {i. Suc i \<notin> A})
        {j. \<not> (j < length (nths rs {i. Suc i \<notin> A}) \<and> P (nths rs {i. Suc i \<notin> A} ! j))}
      = nths xs {i. Suc i \<notin> A \<and> \<not> (i < length rs \<and> P (rs ! i))}"
      using Cons.IH [of ?A rs] by simp
    show ?thesis
    proof (cases "0 \<in> A")
      case True
      then show ?thesis using ih by (simp add: rows nths_Cons)
    next
      case False
      then show ?thesis using ih by (simp add: rows nths_Cons)
    qed
  qed
qed

lemma set_filter_upt: "set (filter Q [0 ..< n]) = {i. i < n \<and> Q i}"
  by auto

lemma trim_rows_twice:
  "trim_rows (trim_rows xs A)
     (filter (\<lambda>i. P (trim_rows rows A ! i)) [0 ..< length (trim_rows rows A)])
   = trim_rows xs (A @ filter (\<lambda>i. P (rows ! i)) [0 ..< length rows])"
proof -
  have l: "{i. i \<notin> set (filter (\<lambda>i. P (nths rows {i. i \<notin> set A} ! i)) [0 ..< length (nths rows {i. i \<notin> set A})])}
     = {j. \<not> (j < length (nths rows {i. i \<notin> set A}) \<and> P (nths rows {i. i \<notin> set A} ! j))}"
    by auto
  have r: "{i. i \<notin> set (A @ filter (\<lambda>i. P (rows ! i)) [0 ..< length rows])}
     = {i. i \<notin> set A \<and> \<not> (i < length rows \<and> P (rows ! i))}"
    by auto
  show ?thesis
    unfolding trim_rows_nths l r by (rule nths_remove_twice)
qed

lemma trim_rows_map: "trim_rows (map f xs) I = map f (trim_rows xs I)"
  by (simp add: trim_rows_nths nths_map)

lemma trim_indices_update:
  "AList.update key (trim_rows rows I) (trim_indices data I)
   = trim_indices (AList.update key rows data) I"
  by (induction data) (auto simp: trim_indices_def)

lemma trim_indices_twice:
  "trim_indices (trim_indices data A)
     (filter (\<lambda>i. P (trim_rows rows A ! i)) [0 ..< length (trim_rows rows A)])
   = trim_indices data (A @ filter (\<lambda>i. P (rows ! i)) [0 ..< length rows])"
  by (induction data) (auto simp: trim_indices_def trim_rows_twice)

lemma transform_locations_loop_Inr_strings:
  "transform_locations_loop i col acc = Inr r \<Longrightarrow> \<exists>rows. col = map Str rows"
proof (induction col arbitrary: i acc)
  case Nil
  show ?case by simp
next
  case (Cons c col)
  obtain t b where acc: "acc = (t, b)" by (cases acc)
  show ?case
  proof (cases c)
    case (Str row)
    from Cons.prems have "transform_locations_loop (Suc i) col
        (t @ [spec_location_value row], if spec_location_flagged row then b @ [i] else b) = Inr r"
      unfolding acc Str transform_locations_step .
    from Cons.IH [OF this] obtain rows where "col = map Str rows" by blast
    then have "c # col = map Str (row # rows)" by (simp add: Str)
    then show ?thesis by (rule exI)
  next
    case (CityState x y)
    with Cons.prems show ?thesis by (simp add: acc)
  qed
qed

section \<open>Claims about the two filter passes\<close>

text \<open>
  C8, as the code has it: whenever both transformations succeed on the unfiltered table,
  the pipeline (flag dates, remove them, flag locations on what is left, remove them)
  returns the same table as one filter pass over the fully transformed, unfiltered table
  with the date indices followed by the location indices, both computed against the
  unfiltered table. The location indices the pipeline itself computes are positions in the
  date-filtered table, so they are not the ones to unite with the date indices.
\<close>

theorem clean_equals_one_pass:
  assumes "transform_dates data = Inr (data1, bad_date_indices)"
    and "transform_locations data1 = Inr (data2, bad_location_indices)"
  shows "clean data = Inr (trim_indices data2 (bad_date_indices @ bad_location_indices))"
proof -
  let ?A = bad_date_indices
  from assms(2) obtain locations where loc: "map_of data1 LOCATION = Some locations"
    by (auto simp: transform_locations_def split: option.splits)
  from assms(2) loc obtain r where "transform_locations_loop 0 locations ([], []) = Inr r"
    by (auto simp: transform_locations_def split: sum.splits)
  then obtain rows where rows: "locations = map Str rows"
    using transform_locations_loop_Inr_strings by blast
  let ?B = "filter (\<lambda>i. spec_location_flagged (rows ! i)) [0 ..< length rows]"
  let ?B' = "filter (\<lambda>i. spec_location_flagged (trim_rows rows ?A ! i))
               [0 ..< length (trim_rows rows ?A)]"
  have full: "transform_locations data1 =
      Inr (AList.update LOCATION (map spec_location_value rows) data1, ?B)"
    using loc rows by (simp add: transform_locations_strings)
  with assms(2) have d2: "data2 = AList.update LOCATION (map spec_location_value rows) data1"
    and b: "bad_location_indices = ?B" by simp_all
  have "map_of (trim_indices data1 ?A) LOCATION = Some (map Str (trim_rows rows ?A))"
    by (simp add: map_of_trim_indices loc rows trim_rows_map)
  then have "transform_locations (trim_indices data1 ?A) =
      Inr (AList.update LOCATION (map spec_location_value (trim_rows rows ?A)) (trim_indices data1 ?A), ?B')"
    by (rule transform_locations_strings)
  also have "AList.update LOCATION (map spec_location_value (trim_rows rows ?A)) (trim_indices data1 ?A)
      = trim_indices data2 ?A"
    by (simp add: d2 trim_indices_update [symmetric] trim_rows_map)
  finally have "clean data = Inr (trim_indices (trim_indices data2 ?A) ?B')"
    by (simp add: clean_def assms(1))
  then show ?thesis
    by (simp add: trim_indices_twice b)
qed

theorem clean_equals_one_pass_witness:
  "transform_dates
     [(''date_occurred'', [Str ''1987-06-04'', Str ''19880101'', Str ''19890101'']),
      (''date_reported'', [Str ''19870605'', Str ''19880102'', Str ''19890102'']),
      (''location'', [Str ''Ithaca, NY'', Str ''Ithaca'', Str ''Albany, NY'']),
      (''short_description'', [Str ''a'', Str ''b'', Str ''c'']),
      (''duration'', [Str ''1'', Str ''2'', Str ''3'']),
      (''long_description'', [Str ''x'', Str ''y'', Str ''z''])]
   = Inr ([(''date_occurred'', [Str ''1988'', Str ''1989'']),
           (''date_reported'', [Str ''1987'', Str ''1988'', Str ''1989'']),
           (''location'', [Str ''Ithaca, NY'', Str ''Ithaca'', Str ''Albany, NY'']),
           (''short_description'', [Str ''a'', Str ''b'', Str ''c'']),
           (''duration'', [Str ''1'', Str ''2'', Str ''3'']),
           (''long_description'', [Str ''x'', Str ''y'', Str ''z''])], [0])
   \<and> transform_locations
       [(''date_occurred'', [Str ''1988'', Str ''1989'']),
        (''date_reported'', [Str ''1987'', Str ''1988'', Str ''1989'']),
        (''location'', [Str ''Ithaca, NY'', Str ''Ithaca'', Str ''Albany, NY'']),
        (''short_description'', [Str ''a'', Str ''b'', Str ''c'']),
        (''duration'', [Str ''1'', Str ''2'', Str ''3'']),
        (''long_description'', [Str ''x'', Str ''y'', Str ''z''])]
     = Inr ([(''date_occurred'', [Str ''1988'', Str ''1989'']),
             (''date_reported'', [Str ''1987'', Str ''1988'', Str ''1989'']),
             (''location'', [CityState ''Ithaca'' '' NY'', Str ''Ithaca'', CityState ''Albany'' '' NY'']),
             (''short_description'', [Str ''a'', Str ''b'', Str ''c'']),
             (''duration'', [Str ''1'', Str ''2'', Str ''3'']),
             (''long_description'', [Str ''x'', Str ''y'', Str ''z''])], [1])
   \<and> clean
       [(''date_occurred'', [Str ''1987-06-04'', Str ''19880101'', Str ''19890101'']),
        (''date_reported'', [Str ''19870605'', Str ''19880102'', Str ''19890102'']),
        (''location'', [Str ''Ithaca, NY'', Str ''Ithaca'', Str ''Albany, NY'']),
        (''short_description'', [Str ''a'', Str ''b'', Str ''c'']),
        (''duration'', [Str ''1'', Str ''2'', Str ''3'']),
        (''long_description'', [Str ''x'', Str ''y'', Str ''z''])]
     = Inr [(''date_occurred'', []),
            (''date_reported'', [Str ''1989'']),
            (''location'', [CityState ''Albany'' '' NY'']),
            (''short_description'', [Str ''c'']),
            (''duration'', [Str ''3'']),
            (''long_description'', [Str ''z''])]"
proof -
  let ?T = "[(''date_occurred'', [Str ''1987-06-04'', Str ''19880101'', Str ''19890101'']),
      (''date_reported'', [Str ''19870605'', Str ''19880102'', Str ''19890102'']),
      (''location'', [Str ''Ithaca, NY'', Str ''Ithaca'', Str ''Albany, NY'']),
      (''short_description'', [Str ''a'', Str ''b'', Str ''c'']),
      (''duration'', [Str ''1'', Str ''2'', Str ''3'']),
      (''long_description'', [Str ''x'', Str ''y'', Str ''z''])]"
  let ?T1 = "[(''date_occurred'', [Str ''1988'', Str ''1989'']),
        (''date_reported'', [Str ''1987'', Str ''1988'', Str ''1989'']),
        (''location'', [Str ''Ithaca, NY'', Str ''Ithaca'', Str ''Albany, NY'']),
        (''short_description'', [Str ''a'', Str ''b'', Str ''c'']),
        (''duration'', [Str ''1'', Str ''2'', Str ''3'']),
        (''long_description'', [Str ''x'', Str ''y'', Str ''z''])]"
  let ?T2 = "[(''date_occurred'', [Str ''1988'', Str ''1989'']),
             (''date_reported'', [Str ''1987'', Str ''1988'', Str ''1989'']),
             (''location'', [CityState ''Ithaca'' '' NY'', Str ''Ithaca'', CityState ''Albany'' '' NY'']),
             (''short_description'', [Str ''a'', Str ''b'', Str ''c'']),
             (''duration'', [Str ''1'', Str ''2'', Str ''3'']),
             (''long_description'', [Str ''x'', Str ''y'', Str ''z''])]"
  have h1: "transform_dates ?T = Inr (?T1, [0])" by code_simp
  have h2: "transform_locations ?T1 = Inr (?T2, [1])" by code_simp
  have e: "trim_indices ?T2 ([0] @ [1]) =
           [(''date_occurred'', []),
            (''date_reported'', [Str ''1989'']),
            (''location'', [CityState ''Albany'' '' NY'']),
            (''short_description'', [Str ''c'']),
            (''duration'', [Str ''3'']),
            (''long_description'', [Str ''z''])]"
    by code_simp
  have "clean ?T = Inr (trim_indices ?T2 ([0] @ [1]))"
    using clean_equals_one_pass [OF h1 h2] .
  then have "clean ?T = Inr [(''date_occurred'', []),
            (''date_reported'', [Str ''1989'']),
            (''location'', [CityState ''Albany'' '' NY'']),
            (''short_description'', [Str ''c'']),
            (''duration'', [Str ''3'']),
            (''long_description'', [Str ''z''])]"
    unfolding e .
  then show ?thesis by (rule conjI [OF h1 conjI [OF h2]])
qed

text \<open>
  The union taken literally fails. On the table below the date step flags row 0; after
  that row is removed the location step flags position 0 of the filtered table, which is
  row 1 of the original. Both index sets are \<open>[0]\<close>, and removing their union from the
  unfiltered transformed table in one pass keeps row 1 (location \<^verbatim>\<open>Ithaca\<close>), which the
  two passes in sequence remove.
\<close>

theorem clean_union_of_indices_counterexample:
  "transform_dates
     [(''date_occurred'', [Str ''1987-06-04'', Str ''19880101'', Str ''19890101'']),
      (''date_reported'', [Str ''19870605'', Str ''19880102'', Str ''19890102'']),
      (''location'', [Str ''Ithaca, NY'', Str ''Ithaca'', Str ''Albany, NY'']),
      (''short_description'', [Str ''a'', Str ''b'', Str ''c'']),
      (''duration'', [Str ''1'', Str ''2'', Str ''3'']),
      (''long_description'', [Str ''x'', Str ''y'', Str ''z''])]
   = Inr ([(''date_occurred'', [Str ''1988'', Str ''1989'']),
           (''date_reported'', [Str ''1987'', Str ''1988'', Str ''1989'']),
           (''location'', [Str ''Ithaca, NY'', Str ''Ithaca'', Str ''Albany, NY'']),
           (''short_description'', [Str ''a'', Str ''b'', Str ''c'']),
           (''duration'', [Str ''1'', Str ''2'', Str ''3'']),
           (''long_description'', [Str ''x'', Str ''y'', Str ''z''])], [0])
   \<and> snd (projr (transform_locations (trim_indices
       [(''date_occurred'', [Str ''1988'', Str ''1989'']),
        (''date_reported'', [Str ''1987'', Str ''1988'', Str ''1989'']),
        (''location'', [Str ''Ithaca, NY'', Str ''Ithaca'', Str ''Albany, NY'']),
        (''short_description'', [Str ''a'', Str ''b'', Str ''c'']),
        (''duration'', [Str ''1'', Str ''2'', Str ''3'']),
        (''long_description'', [Str ''x'', Str ''y'', Str ''z''])] [0]))) = [0]
   \<and> clean
       [(''date_occurred'', [Str ''1987-06-04'', Str ''19880101'', Str ''19890101'']),
        (''date_reported'', [Str ''19870605'', Str ''19880102'', Str ''19890102'']),
        (''location'', [Str ''Ithaca, NY'', Str ''Ithaca'', Str ''Albany, NY'']),
        (''short_description'', [Str ''a'', Str ''b'', Str ''c'']),
        (''duration'', [Str ''1'', Str ''2'', Str ''3'']),
        (''long_description'', [Str ''x'', Str ''y'', Str ''z''])]
     = Inr [(''date_occurred'', []),
            (''date_reported'', [Str ''1989'']),
            (''location'', [CityState ''Albany'' '' NY'']),
            (''short_description'', [Str ''c'']),
            (''duration'', [Str ''3'']),
            (''long_description'', [Str ''z''])]
   \<and> trim_indices
       [(''date_occurred'', [Str ''1988'', Str ''1989'']),
        (''date_reported'', [Str ''1987'', Str ''1988'', Str ''1989'']),
        (''location'', [CityState ''Ithaca'' '' NY'', Str ''Ithaca'', CityState ''Albany'' '' NY'']),
        (''short_description'', [Str ''a'', Str ''b'', Str ''c'']),
        (''duration'', [Str ''1'', Str ''2'', Str ''3'']),
        (''long_description'', [Str ''x'', Str ''y'', Str ''z''])] ([0] @ [0])
     = [(''date_occurred'', [Str ''1989'']),
        (''date_reported'', [Str ''1988'', Str ''1989'']),
        (''location'', [Str ''Ithaca'', CityState ''Albany'' '' NY'']),
        (''short_description'', [Str ''b'', Str ''c'']),
        (''duration'', [Str ''2'', Str ''3'']),
        (''long_description'', [Str ''y'', Str ''z''])]
   \<and> clean
       [(''date_occurred'', [Str ''1987-06-04'', Str ''19880101'', Str ''19890101'']),
        (''date_reported'', [Str ''19870605'', Str ''19880102'', Str ''19890102'']),
        (''location'', [Str ''Ithaca, NY'', Str ''Ithaca'', Str ''Albany, NY'']),
        (''short_description'', [Str ''a'', Str ''b'', Str ''c'']),
        (''duration'', [Str ''1'', Str ''2'', Str ''3'']),
        (''long_description'', [Str ''x'', Str ''y'', Str ''z''])]
     \<noteq> Inr (trim_indices
       [(''date_occurred'', [Str ''1988'', Str ''1989'']),
        (''date_reported'', [Str ''1987'', Str ''1988'', Str ''1989'']),
        (''location'', [CityState ''Ithaca'' '' NY'', Str ''Ithaca'', CityState ''Albany'' '' NY'']),
        (''short_description'', [Str ''a'', Str ''b'', Str ''c'']),
        (''duration'', [Str ''1'', Str ''2'', Str ''3'']),
        (''long_description'', [Str ''x'', Str ''y'', Str ''z''])] ([0] @ [0]))"
  by code_simp

section \<open>The steps that keep the columns aligned\<close>

text \<open>
  A filter pass and the location transformation return an aligned table when given one;
  only the date transformation does not.
\<close>

lemma length_trim_rows_cong:
  "length xs = length ys \<Longrightarrow> length (trim_rows xs I) = length (trim_rows ys I)"
  by (simp add: length_trim_rows)

lemma aligned_trim_indices: "aligned data \<Longrightarrow> aligned (trim_indices data I)"
proof (cases data)
  case Nil
  then show ?thesis by (simp add: aligned_def trim_indices_def)
next
  case (Cons entry rest)
  assume a: "aligned data"
  obtain key rows where e: "entry = (key, rows)" by (cases entry)
  from a have "list_all (\<lambda>(k, r). length r = length rows) rest"
    by (simp add: aligned_def Cons e)
  then have "list_all (\<lambda>(k, r). length r = length (trim_rows rows I))
               (map (\<lambda>(key, rows). (key, trim_rows rows I)) rest)"
    by (induction rest) (auto intro: length_trim_rows_cong)
  then show ?thesis by (simp add: aligned_def trim_indices_def Cons e)
qed

lemma list_all_update_same_length:
  "list_all (\<lambda>(k, r). length r = n) rest \<Longrightarrow> map_of rest key = Some old \<Longrightarrow>
   length new = length old \<Longrightarrow> list_all (\<lambda>(k, r). length r = n) (AList.update key new rest)"
  by (induction rest) (auto split: if_splits)

lemma aligned_update_same_length:
  assumes "aligned data" and "map_of data key = Some old" and "length new = length old"
  shows "aligned (AList.update key new data)"
proof (cases data)
  case Nil
  with assms(2) show ?thesis by simp
next
  case (Cons entry rest)
  obtain k0 rows where e: "entry = (k0, rows)" by (cases entry)
  from assms(1) have all: "list_all (\<lambda>(k, r). length r = length rows) rest"
    by (simp add: aligned_def Cons e)
  show ?thesis
  proof (cases "k0 = key")
    case True
    with assms(2,3) have "length new = length rows" by (simp add: Cons e)
    with all True show ?thesis by (simp add: aligned_def Cons e)
  next
    case False
    with assms(2) have "map_of rest key = Some old" by (simp add: Cons e)
    from list_all_update_same_length [OF all this assms(3)] False
    show ?thesis by (simp add: aligned_def Cons e)
  qed
qed

lemma aligned_transform_locations:
  assumes "aligned data" and "transform_locations data = Inr (data1, bad_indices)"
  shows "aligned data1"
proof -
  from assms(2) obtain locations where loc: "map_of data LOCATION = Some locations"
    by (auto simp: transform_locations_def split: option.splits)
  from assms(2) loc obtain r where "transform_locations_loop 0 locations ([], []) = Inr r"
    by (auto simp: transform_locations_def split: sum.splits)
  then obtain rows where rows: "locations = map Str rows"
    using transform_locations_loop_Inr_strings by blast
  have "transform_locations data =
      Inr (AList.update LOCATION (map spec_location_value rows) data,
           filter (\<lambda>i. spec_location_flagged (rows ! i)) [0 ..< length rows])"
    using loc rows by (simp add: transform_locations_strings)
  with assms(2) have "data1 = AList.update LOCATION (map spec_location_value rows) data"
    by simp
  then show ?thesis
    using aligned_update_same_length [OF assms(1) loc, of "map spec_location_value rows"] rows
    by simp
qed

end
